theory Spec2Isabelle
  imports Main "HOL-Library.Word"
begin

unbundle bit_operations_syntax

section \<open>Byte-addressed memory\<close>

text \<open>
  Both allocators manage one contiguous region of raw bytes. Memory is a total map from
  byte addresses to bytes; a 32-bit boundary tag and a 64-bit list pointer are read and
  written as little-endian byte sequences, so that a tag, a link field and a payload byte
  that occupy the same address really alias.
\<close>

type_synonym byte = "8 word"
type_synonym memory = "nat \<Rightarrow> byte"
type_synonym size_t = "64 word"
type_synonym word_t = "32 word"

fun le_decode :: "byte list \<Rightarrow> 'a::len word" where
  "le_decode [] = 0"
| "le_decode (b # bs) = ucast b OR push_bit 8 (le_decode bs)"

fun le_encode :: "nat \<Rightarrow> 'a::len word \<Rightarrow> byte list" where
  "le_encode 0 v = []"
| "le_encode (Suc n) v = ucast v # le_encode n (drop_bit 8 v)"

definition read_bytes :: "memory \<Rightarrow> nat \<Rightarrow> nat \<Rightarrow> byte list" where
  "read_bytes m a n = map m [a..<a + n]"

definition write_bytes :: "memory \<Rightarrow> nat \<Rightarrow> byte list \<Rightarrow> memory" where
  "write_bytes m a bs = (\<lambda>x. if a \<le> x \<and> x < a + length bs then bs ! (x - a) else m x)"

definition load32 :: "memory \<Rightarrow> nat \<Rightarrow> word_t" where
  "load32 m a = le_decode (read_bytes m a 4)"

definition store32 :: "memory \<Rightarrow> nat \<Rightarrow> word_t \<Rightarrow> memory" where
  "store32 m a v = write_bytes m a (le_encode 4 v)"

definition load64 :: "memory \<Rightarrow> nat \<Rightarrow> size_t" where
  "load64 m a = le_decode (read_bytes m a 8)"

definition store64 :: "memory \<Rightarrow> nat \<Rightarrow> size_t \<Rightarrow> memory" where
  "store64 m a v = write_bytes m a (le_encode 8 v)"

text \<open>Pointers are addresses; a stored pointer is its 64-bit representation.\<close>

definition load_ptr :: "memory \<Rightarrow> nat \<Rightarrow> nat" where
  "load_ptr m a = unat (load64 m a)"

definition store_ptr :: "memory \<Rightarrow> nat \<Rightarrow> nat \<Rightarrow> memory" where
  "store_ptr m a p = store64 m a (of_nat p)"

text \<open>\<open>memcpy\<close> and \<open>memset\<close> of the C library.\<close>

definition memcpy :: "memory \<Rightarrow> nat \<Rightarrow> nat \<Rightarrow> size_t \<Rightarrow> memory" where
  "memcpy m dst src n = write_bytes m dst (read_bytes m src (unat n))"

definition memset :: "memory \<Rightarrow> nat \<Rightarrow> byte \<Rightarrow> size_t \<Rightarrow> memory" where
  "memset m p c n = write_bytes m p (replicate (unat n) c)"

section \<open>The backing region and the allocator state\<close>

text \<open>
  The globals of \<open>memlib\<close> (start, break and limit of the region) and of the allocator
  (\<open>heap_listp\<close>, and \<open>seglist\<close> in the segregated variant) together with the memory.
  The null pointer is address 0.
\<close>

record heap =
  mem :: memory
  mem_start_brk :: nat
  mem_brk :: nat
  mem_max_addr :: nat
  heap_listp :: nat
  seglist :: nat

abbreviation NULL :: nat where "NULL \<equiv> 0"

text \<open>
  Modelled from the spec: \<open>mem_sbrk\<close> of \<open>memlib.c\<close>, which is not among the sources.
  The backing-region contract: extend the region by exactly \<open>n\<close> bytes and return the
  old top, or signal failure; the region is exhausted when the new top would pass its
  limit. Failure (the C code's \<open>(void *)-1\<close>) is \<open>None\<close>.
\<close>

definition mem_sbrk :: "heap \<Rightarrow> size_t \<Rightarrow> (nat \<times> heap) option" where
  "mem_sbrk s incr =
     (if mem_brk s + unat incr > mem_max_addr s then None
      else Some (mem_brk s, s\<lparr>mem_brk := mem_brk s + unat incr\<rparr>))"

text \<open>
  What a call can do besides returning: read through a null global pointer, or never
  leave a search loop.
\<close>

datatype error = NullDeref | NoReturn

section \<open>Block encoding, shared by both variants\<close>

definition wsize :: size_t where "wsize = 4"
definition dsize :: size_t where "dsize = 2 * wsize"
definition chunksize :: size_t where "chunksize = push_bit 12 1"

definition alloc_mask :: word_t where "alloc_mask = 1"
definition size_mask :: word_t where "size_mask = NOT 7"

definition max_sz :: "size_t \<Rightarrow> size_t \<Rightarrow> size_t" where
  "max_sz x y = (if x > y then x else y)"

definition round_up :: "size_t \<Rightarrow> size_t \<Rightarrow> size_t" where
  "round_up sz n = n * ((sz + (n - 1)) div n)"

definition pack :: "size_t \<Rightarrow> bool \<Rightarrow> word_t" where
  "pack sz alloc = ucast (if alloc then sz OR 1 else sz)"

definition extract_size :: "word_t \<Rightarrow> size_t" where
  "extract_size w = ucast (w AND size_mask)"

definition get_size :: "memory \<Rightarrow> nat \<Rightarrow> size_t" where
  "get_size m block = extract_size (load32 m block)"

definition extract_alloc :: "word_t \<Rightarrow> bool" where
  "extract_alloc w = (w AND alloc_mask \<noteq> 0)"

definition get_alloc :: "memory \<Rightarrow> nat \<Rightarrow> bool" where
  "get_alloc m block = extract_alloc (load32 m block)"

definition write_header :: "memory \<Rightarrow> nat \<Rightarrow> size_t \<Rightarrow> bool \<Rightarrow> memory" where
  "write_header m block sz alloc = store32 m block (pack sz alloc)"

definition find_next :: "memory \<Rightarrow> nat \<Rightarrow> nat" where
  "find_next m block = block + unat (get_size m block)"

definition find_prev_footer :: "nat \<Rightarrow> nat" where
  "find_prev_footer block = block - 4"

definition find_prev :: "memory \<Rightarrow> nat \<Rightarrow> nat" where
  "find_prev m block = block - unat (extract_size (load32 m (find_prev_footer block)))"

section \<open>The implicit-list allocator (\<open>mm-baseline.c\<close>)\<close>

definition min_block_size_base :: size_t where "min_block_size_base = 2 * dsize"

text \<open>\<open>offsetof(block_t, payload)\<close>: the payload follows the 4-byte header.\<close>

definition payload_to_header_base :: "nat \<Rightarrow> nat" where
  "payload_to_header_base pp = pp - 4"

definition header_to_payload_base :: "nat \<Rightarrow> nat" where
  "header_to_payload_base block = block + 4"

definition get_payload_size_base :: "memory \<Rightarrow> nat \<Rightarrow> size_t" where
  "get_payload_size_base m block = get_size m block - dsize"

definition write_footer_base :: "memory \<Rightarrow> nat \<Rightarrow> size_t \<Rightarrow> bool \<Rightarrow> memory" where
  "write_footer_base m block sz alloc =
     store32 m (header_to_payload_base block + unat (get_size m block) - unat dsize) (pack sz alloc)"

definition coalesce_base :: "heap \<Rightarrow> nat \<Rightarrow> nat \<times> heap" where
  "coalesce_base s block =
     (let m = mem s;
          block_next = find_next m block;
          block_prev = find_prev m block;
          prev_alloc = get_alloc m block_prev;
          next_alloc = get_alloc m block_next;
          sz = get_size m block
      in if prev_alloc \<and> next_alloc then (block, s)
         else if prev_alloc \<and> \<not> next_alloc then
           (let sz = sz + get_size m block_next;
                m1 = write_header m block sz False;
                m2 = write_footer_base m1 block sz False
            in (block, s\<lparr>mem := m2\<rparr>))
         else if \<not> prev_alloc \<and> next_alloc then
           (let sz = sz + get_size m block_prev;
                m1 = write_header m block_prev sz False;
                m2 = write_footer_base m1 block_prev sz False
            in (block_prev, s\<lparr>mem := m2\<rparr>))
         else
           (let sz = sz + (get_size m block_next + get_size m block_prev);
                m1 = write_header m block_prev sz False;
                m2 = write_footer_base m1 block_prev sz False
            in (block_prev, s\<lparr>mem := m2\<rparr>)))"

definition extend_heap_base :: "heap \<Rightarrow> size_t \<Rightarrow> nat \<times> heap" where
  "extend_heap_base s sz =
     (let sz = round_up sz dsize
      in case mem_sbrk s sz of
           None \<Rightarrow> (NULL, s)
         | Some r \<Rightarrow>
             (let bp = fst r; s1 = snd r;
                  block = payload_to_header_base bp;
                  m1 = write_header (mem s1) block sz False;
                  m2 = write_footer_base m1 block sz False;
                  block_next = find_next m2 block;
                  m3 = write_header m2 block_next 0 True
              in coalesce_base (s1\<lparr>mem := m3\<rparr>) block))"

definition mm_init_base :: "heap \<Rightarrow> int \<times> heap" where
  "mm_init_base s =
     (case mem_sbrk s (4 * wsize) of
        None \<Rightarrow> (-1, s)
      | Some r \<Rightarrow>
          (let start = fst r; s1 = snd r;
               m1 = store32 (mem s1) (start + 4) (pack dsize True);
               m2 = store32 m1 (start + 8) (pack dsize True);
               m3 = store32 m2 (start + 12) (pack 0 True);
               s2 = s1\<lparr>mem := m3, heap_listp := start + 4\<rparr>;
               r2 = extend_heap_base s2 chunksize
           in if fst r2 = NULL then (-1, snd r2) else (0, snd r2)))"

definition place_base :: "heap \<Rightarrow> nat \<Rightarrow> size_t \<Rightarrow> heap" where
  "place_base s block asize =
     (let m = mem s; csize = get_size m block
      in if csize - asize \<ge> min_block_size_base then
           (let m1 = write_header m block asize True;
                m2 = write_footer_base m1 block asize True;
                block_next = find_next m2 block;
                m3 = write_header m2 block_next (csize - asize) False;
                m4 = write_footer_base m3 block_next (csize - asize) False
            in s\<lparr>mem := m4\<rparr>)
         else
           (let m1 = write_header m block csize True;
                m2 = write_footer_base m1 block csize True
            in s\<lparr>mem := m2\<rparr>))"

text \<open>
  The scan of \<open>find_fit\<close>: from \<open>block\<close>, step over block sizes until a header of size 0.
  On a heap without such a header the C loop runs off the region; that is \<open>None\<close>.
\<close>

partial_function (option) find_fit_scan :: "memory \<Rightarrow> size_t \<Rightarrow> nat \<Rightarrow> nat option" where
  "find_fit_scan m asize block =
     (if get_size m block > 0 then
        (if \<not> get_alloc m block \<and> asize \<le> get_size m block then Some block
         else find_fit_scan m asize (find_next m block))
      else Some NULL)"

definition find_fit_base :: "heap \<Rightarrow> size_t \<Rightarrow> error + nat" where
  "find_fit_base s asize =
     (if heap_listp s = NULL then Inl NullDeref
      else case find_fit_scan (mem s) asize (heap_listp s) of
             None \<Rightarrow> Inl NoReturn
           | Some block \<Rightarrow> Inr block)"

definition malloc_base :: "heap \<Rightarrow> size_t \<Rightarrow> error + (nat \<times> heap)" where
  "malloc_base s sz =
     (if sz = 0 then Inr (NULL, s)
      else
        (let s1 = (if heap_listp s = NULL then snd (mm_init_base s) else s);
             asize = round_up sz dsize + dsize
         in case find_fit_base s1 asize of
              Inl e \<Rightarrow> Inl e
            | Inr block \<Rightarrow>
                if block = NULL then
                  (let extendsize = max_sz asize chunksize;
                       r = extend_heap_base s1 extendsize;
                       block = fst r; s2 = snd r
                   in if block = NULL then Inr (NULL, s2)
                      else Inr (header_to_payload_base block, place_base s2 block asize))
                else Inr (header_to_payload_base block, place_base s1 block asize)))"

definition free_base :: "heap \<Rightarrow> nat \<Rightarrow> heap" where
  "free_base s bp =
     (if bp = NULL then s
      else
        (let block = payload_to_header_base bp;
             sz = get_size (mem s) block;
             m1 = write_header (mem s) block sz False;
             m2 = write_footer_base m1 block sz False
         in snd (coalesce_base (s\<lparr>mem := m2\<rparr>) block)))"

definition realloc_base :: "heap \<Rightarrow> nat \<Rightarrow> size_t \<Rightarrow> error + (nat \<times> heap)" where
  "realloc_base s ptr sz =
     (let block = payload_to_header_base ptr
      in if sz = 0 then Inr (NULL, free_base s ptr)
         else if ptr = NULL then malloc_base s sz
         else case malloc_base s sz of
                Inl e \<Rightarrow> Inl e
              | Inr r \<Rightarrow>
                  (let newptr = fst r; s1 = snd r
                   in if newptr = NULL then Inr (NULL, s1)
                      else
                        (let copysize = get_payload_size_base (mem s1) block;
                             copysize = (if sz < copysize then sz else copysize);
                             s2 = s1\<lparr>mem := memcpy (mem s1) newptr ptr copysize\<rparr>
                         in Inr (newptr, free_base s2 ptr))))"

text \<open>
  \<open>calloc\<close> divides by \<open>nmemb\<close>; a division by zero is undefined behaviour in C and the
  word division of HOL gives 0 there, so \<open>calloc_base\<close> describes the code for
  \<open>nmemb \<noteq> 0\<close> only.
\<close>

definition calloc_base :: "heap \<Rightarrow> size_t \<Rightarrow> size_t \<Rightarrow> error + (nat \<times> heap)" where
  "calloc_base s nmemb sz =
     (let asize = nmemb * sz
      in if asize div nmemb \<noteq> sz then Inr (NULL, s)
         else case malloc_base s asize of
                Inl e \<Rightarrow> Inl e
              | Inr r \<Rightarrow>
                  (let bp = fst r; s1 = snd r
                   in if bp = NULL then Inr (NULL, s1)
                      else Inr (bp, s1\<lparr>mem := memset (mem s1) bp 0 asize\<rparr>)))"

section \<open>The segregated-fits allocator (\<open>mm-segregated.c\<close>)\<close>

definition tsize :: size_t where "tsize = 3 * wsize"
definition ptr_size :: size_t where "ptr_size = 8"
definition size_class_cnt :: size_t where "size_class_cnt = 16"
definition min_block_size_seg :: size_t where
  "min_block_size_seg = 2 * wsize + 2 * ptr_size + 2 * wsize"
definition prologue_size :: size_t where "prologue_size = min_block_size_seg"
definition epilogue_size :: size_t where "epilogue_size = dsize"

text \<open>
  \<open>sizeof(block_t)\<close> with 8-byte pointers: header and dummy word (8 bytes), \<open>pred\<close> at
  offset 8, \<open>succ\<close> at offset 16, a dummy word at 24 and 4 bytes of tail padding.
\<close>

definition block_size :: size_t where "block_size = 32"

definition payload_to_header_seg :: "nat \<Rightarrow> nat" where
  "payload_to_header_seg pp = pp - 8"

definition header_to_payload_seg :: "nat \<Rightarrow> nat" where
  "header_to_payload_seg block = block + 8"

definition pred_field :: "nat \<Rightarrow> nat" where "pred_field block = block + 8"
definition succ_field :: "nat \<Rightarrow> nat" where "succ_field block = block + 16"

definition get_payload_size_seg :: "memory \<Rightarrow> nat \<Rightarrow> size_t" where
  "get_payload_size_seg m block = get_size m block - tsize"

text \<open>The pointer sum of \<open>get_footer\<close> wraps at 64 bits, as the address arithmetic does.\<close>

definition get_footer :: "memory \<Rightarrow> nat \<Rightarrow> nat" where
  "get_footer m block =
     (header_to_payload_seg block + unat (get_payload_size_seg m block)) mod 2 ^ 64"

definition write_footer_seg :: "memory \<Rightarrow> nat \<Rightarrow> size_t \<Rightarrow> bool \<Rightarrow> memory" where
  "write_footer_seg m block sz alloc = store32 m (get_footer m block) (pack sz alloc)"

text \<open>
  The loop of \<open>get_highest_1bit_idx\<close> is a do-while: the body (shift \<open>num\<close>, count
  \<open>idx\<close>) runs before the test \<open>num > 0\<close>.
\<close>

function highest_1bit_loop :: "word_t \<Rightarrow> word_t \<Rightarrow> word_t" where
  "highest_1bit_loop num idx =
     (if drop_bit 1 num > 0 then highest_1bit_loop (drop_bit 1 num) (idx + 1) else idx + 1)"
  by pat_completeness auto
termination
proof (relation "measure (\<lambda>(num, idx). unat num)")
  show "wf (measure (\<lambda>(num, idx). unat num))" by simp
next
  fix num idx :: word_t
  assume "0 < drop_bit 1 num"
  then have "unat (drop_bit 1 num) \<noteq> 0" by (simp add: unat_gt_0 word_neq_0_conv)
  moreover have "unat (drop_bit 1 num) = unat num div 2"
    by (simp add: drop_bit_eq_div unat_div)
  ultimately show "((drop_bit 1 num, idx + 1), (num, idx)) \<in> measure (\<lambda>(num, idx). unat num)"
    by simp
qed

declare highest_1bit_loop.simps [simp del]

definition get_highest_1bit_idx :: "word_t \<Rightarrow> word_t" where
  "get_highest_1bit_idx num = highest_1bit_loop num 0"

text \<open>
  \<open>(size_t)(1 << (highest_1bit_idx - 1))\<close>: the shift is done on a 32-bit \<open>int\<close> and the
  result is sign-extended to 64 bits. The argument of \<open>get_highest_1bit_idx\<close> is the
  size truncated to \<open>uint32_t\<close>.
\<close>

definition get_seglist_idx :: "size_t \<Rightarrow> word_t" where
  "get_seglist_idx sz =
     (let highest_1bit_idx = get_highest_1bit_idx (ucast sz);
          highest_1bit_idx =
            (if sz = scast (push_bit (unat (highest_1bit_idx - 1)) (1 :: word_t))
             then highest_1bit_idx - 1 else highest_1bit_idx)
      in if highest_1bit_idx \<le> 5 then 0
         else if highest_1bit_idx \<ge> 20 then 15
         else highest_1bit_idx - 5)"

definition get_asize :: "size_t \<Rightarrow> size_t" where
  "get_asize sz = max_sz (round_up (sz + tsize) dsize) min_block_size_seg"

text \<open>\<open>&(seglist[idx])\<close>: the heads are an array of \<open>block_t\<close>.\<close>

definition seglist_at :: "heap \<Rightarrow> word_t \<Rightarrow> nat" where
  "seglist_at s idx = seglist s + unat block_size * unat idx"

definition insert_free_block :: "heap \<Rightarrow> nat \<Rightarrow> heap" where
  "insert_free_block s bp =
     (let m = mem s;
          idx = get_seglist_idx (get_size m bp);
          m1 = store_ptr m (pred_field bp) (seglist_at s idx);
          m2 = store_ptr m1 (succ_field bp) (load_ptr m1 (succ_field (seglist_at s idx)));
          m3 = store_ptr m2 (succ_field (load_ptr m2 (pred_field bp))) bp;
          m4 = store_ptr m3 (pred_field (load_ptr m3 (succ_field bp))) bp
      in s\<lparr>mem := m4\<rparr>)"

definition remove_from_free_list :: "heap \<Rightarrow> nat \<Rightarrow> heap" where
  "remove_from_free_list s bp =
     (let m = mem s;
          m1 = store_ptr m (succ_field (load_ptr m (pred_field bp))) (load_ptr m (succ_field bp));
          m2 = store_ptr m1 (pred_field (load_ptr m1 (succ_field bp))) (load_ptr m1 (pred_field bp))
      in s\<lparr>mem := m2\<rparr>)"

definition split_block :: "heap \<Rightarrow> nat \<Rightarrow> size_t \<Rightarrow> heap" where
  "split_block s bp asize =
     (let m = mem s;
          csize = get_size m bp;
          m1 = write_header m bp asize True;
          m2 = write_footer_seg m1 bp asize True;
          block_next = find_next m2 bp;
          m3 = write_header m2 block_next (csize - asize) False;
          m4 = write_footer_seg m3 block_next (csize - asize) False
      in insert_free_block (s\<lparr>mem := m4\<rparr>) block_next)"

definition coalesce_seg :: "heap \<Rightarrow> nat \<Rightarrow> nat \<times> heap" where
  "coalesce_seg s block =
     (let m = mem s;
          block_next = find_next m block;
          block_prev = find_prev m block;
          prev_alloc = get_alloc m block_prev;
          next_alloc = get_alloc m block_next;
          sz = get_size m block;
          r =
            (if prev_alloc \<and> next_alloc then (block, s)
             else if prev_alloc \<and> \<not> next_alloc then
               (let sz = sz + get_size m block_next;
                    m1 = write_header m block sz False;
                    m2 = write_footer_seg m1 block sz False
                in (block, remove_from_free_list (s\<lparr>mem := m2\<rparr>) block_next))
             else if \<not> prev_alloc \<and> next_alloc then
               (let sz = sz + get_size m block_prev;
                    m1 = write_header m block_prev sz False;
                    m2 = write_footer_seg m1 block_prev sz False
                in (block_prev, remove_from_free_list (s\<lparr>mem := m2\<rparr>) block_prev))
             else
               (let sz = sz + (get_size m block_next + get_size m block_prev);
                    m1 = write_header m block_prev sz False;
                    m2 = write_footer_seg m1 block_prev sz False
                in (block_prev,
                    remove_from_free_list
                      (remove_from_free_list (s\<lparr>mem := m2\<rparr>) block_prev) block_next)))
      in (fst r, insert_free_block (snd r) (fst r)))"

definition extend_heap_seg :: "heap \<Rightarrow> size_t \<Rightarrow> nat \<times> heap" where
  "extend_heap_seg s sz =
     (let sz = round_up sz dsize
      in case mem_sbrk s sz of
           None \<Rightarrow> (NULL, s)
         | Some r \<Rightarrow>
             (let bp = fst r; s1 = snd r;
                  old_epi = bp - unat epilogue_size;
                  m1 = write_header (mem s1) old_epi sz False;
                  m2 = write_footer_seg m1 old_epi sz False;
                  new_epi = find_next m2 old_epi;
                  m3 = write_header m2 new_epi 0 True
              in coalesce_seg (s1\<lparr>mem := m3\<rparr>) old_epi))"

text \<open>The loop of \<open>mm_init\<close> over the \<open>size_class_cnt\<close> heads, from index \<open>i\<close>.\<close>

function init_heads :: "memory \<Rightarrow> nat \<Rightarrow> size_t \<Rightarrow> memory" where
  "init_heads m start i =
     (if i < size_class_cnt then
        (let hd = start + unat block_size * unat i;
             m1 = write_header m hd block_size True;
             m2 = write_footer_seg m1 hd block_size True;
             m3 = store_ptr m2 (pred_field hd) hd;
             m4 = store_ptr m3 (succ_field hd) hd
         in init_heads m4 start (i + 1))
      else m)"
  by pat_completeness auto
termination
proof (relation "measure (\<lambda>(m, start, i). 16 - unat i)")
  show "wf (measure (\<lambda>(m, start, i). 16 - unat i))" by simp
next
  fix m :: memory and start :: nat and i :: size_t and x xa xb xc xd
  assume "i < size_class_cnt"
  then have "unat i < 16" by (simp add: size_class_cnt_def word_less_nat_alt)
  then have "unat (i + 1) = unat i + 1" by (simp add: unat_word_ariths)
  then show "((xd, start, i + 1), (m, start, i)) \<in> measure (\<lambda>(m, start, i). 16 - unat i)"
    using \<open>unat i < 16\<close> by simp
qed

declare init_heads.simps [simp del]

text \<open>The number of bytes \<open>mm_init\<close> asks of \<open>mem_sbrk\<close>: the argument of its call.\<close>

definition mm_init_request_seg :: size_t where
  "mm_init_request_seg = size_class_cnt * block_size + prologue_size + epilogue_size"

definition mm_init_seg :: "heap \<Rightarrow> int \<times> heap" where
  "mm_init_seg s =
     (case mem_sbrk s mm_init_request_seg of
        None \<Rightarrow> (-1, s)
      | Some r \<Rightarrow>
          (let start = fst r; s1 = snd r;
               m1 = init_heads (mem s1) start 0;
               prologue = start + unat block_size * unat size_class_cnt;
               m2 = write_header m1 prologue prologue_size True;
               m3 = write_footer_seg m2 prologue prologue_size True;
               epilogue = prologue + unat prologue_size;
               m4 = write_header m3 epilogue 0 True;
               s2 = s1\<lparr>mem := m4, seglist := start, heap_listp := prologue\<rparr>;
               r2 = extend_heap_seg s2 chunksize
           in if fst r2 = NULL then (-1, snd r2) else (0, snd r2)))"

definition place_seg :: "heap \<Rightarrow> nat \<Rightarrow> size_t \<Rightarrow> heap" where
  "place_seg s block asize =
     (let csize = get_size (mem s) block;
          s1 = remove_from_free_list s block
      in if csize - asize \<ge> min_block_size_seg then split_block s1 block asize
         else
           (let m1 = write_header (mem s1) block csize True;
                m2 = write_footer_seg m1 block csize True
            in s1\<lparr>mem := m2\<rparr>))"

text \<open>
  The inner loop of \<open>find_fit\<close> walks one circular list from \<open>block\<close> until it is back at
  the head: \<open>Some (Some b)\<close> is the \<open>return block\<close>, \<open>Some None\<close> the end of the loop, and
  \<open>None\<close> a walk that never comes back to the head.
\<close>

partial_function (option) find_fit_list :: "memory \<Rightarrow> nat \<Rightarrow> size_t \<Rightarrow> nat \<Rightarrow> nat option option" where
  "find_fit_list m head asize block =
     (if block \<noteq> head then
        (if asize \<le> get_size m block then Some (Some block)
         else find_fit_list m head asize (load_ptr m (succ_field block)))
      else Some None)"

function find_fit_classes :: "heap \<Rightarrow> size_t \<Rightarrow> word_t \<Rightarrow> nat option" where
  "find_fit_classes s asize idx =
     (if ucast idx < size_class_cnt then
        (case find_fit_list (mem s) (seglist_at s idx) asize
                (load_ptr (mem s) (succ_field (seglist_at s idx))) of
           None \<Rightarrow> None
         | Some (Some block) \<Rightarrow> Some block
         | Some None \<Rightarrow> find_fit_classes s asize (idx + 1))
      else Some NULL)"
  by pat_completeness auto
termination
proof (relation "measure (\<lambda>(s, asize, idx). 16 - unat idx)")
  show "wf (measure (\<lambda>(s, asize, idx). 16 - unat idx))" by simp
next
  fix s :: heap and asize :: size_t and idx :: word_t and x2
  assume "(ucast idx :: size_t) < size_class_cnt"
  then have "unat idx < 16"
    by (simp add: size_class_cnt_def word_less_nat_alt unsigned_ucast_eq take_bit_nat_eq_self unsigned_less [THEN less_trans])
  then have "unat (idx + 1) = unat idx + 1" by (simp add: unat_word_ariths)
  then show "((s, asize, idx + 1), (s, asize, idx)) \<in> measure (\<lambda>(s, asize, idx). 16 - unat idx)"
    using \<open>unat idx < 16\<close> by simp
qed

declare find_fit_classes.simps [simp del]

definition find_fit_seg :: "heap \<Rightarrow> size_t \<Rightarrow> error + nat" where
  "find_fit_seg s asize =
     (if seglist s = NULL then Inl NullDeref
      else case find_fit_classes s asize (get_seglist_idx asize) of
             None \<Rightarrow> Inl NoReturn
           | Some block \<Rightarrow> Inr block)"

definition malloc_seg :: "heap \<Rightarrow> size_t \<Rightarrow> error + (nat \<times> heap)" where
  "malloc_seg s sz =
     (if sz = 0 then Inr (NULL, s)
      else
        (let s1 = (if heap_listp s = NULL then snd (mm_init_seg s) else s);
             asize = get_asize sz
         in case find_fit_seg s1 asize of
              Inl e \<Rightarrow> Inl e
            | Inr block \<Rightarrow>
                if block = NULL then
                  (let extendsize = max_sz asize chunksize;
                       r = extend_heap_seg s1 extendsize;
                       block = fst r; s2 = snd r
                   in if block = NULL then Inr (NULL, s2)
                      else Inr (header_to_payload_seg block, place_seg s2 block asize))
                else Inr (header_to_payload_seg block, place_seg s1 block asize)))"

definition free_seg :: "heap \<Rightarrow> nat \<Rightarrow> heap" where
  "free_seg s ptr =
     (if ptr = NULL then s
      else
        (let block = payload_to_header_seg ptr;
             sz = get_size (mem s) block;
             m1 = write_header (mem s) block sz False;
             m2 = write_footer_seg m1 block sz False
         in snd (coalesce_seg (s\<lparr>mem := m2\<rparr>) block)))"

definition realloc_seg :: "heap \<Rightarrow> nat \<Rightarrow> size_t \<Rightarrow> error + (nat \<times> heap)" where
  "realloc_seg s oldptr sz =
     (if sz = 0 then Inr (NULL, free_seg s oldptr)
      else if oldptr = NULL then malloc_seg s sz
      else
        (let old_block = payload_to_header_seg oldptr;
             oldsize = get_size (mem s) old_block;
             asize = get_asize sz
         in if oldsize \<ge> asize then
              (if oldsize - asize \<ge> min_block_size_seg
               then Inr (oldptr, split_block s old_block asize)
               else Inr (oldptr, s))
            else case malloc_seg s sz of
                   Inl e \<Rightarrow> Inl e
                 | Inr r \<Rightarrow>
                     (let newptr = fst r; s1 = snd r
                      in if newptr = NULL then Inr (NULL, s1)
                         else
                           (let s2 = s1\<lparr>mem := memcpy (mem s1) newptr oldptr
                                                    (get_payload_size_seg (mem s1) old_block)\<rparr>
                            in Inr (newptr, free_seg s2 oldptr)))))"

definition calloc_seg :: "heap \<Rightarrow> size_t \<Rightarrow> size_t \<Rightarrow> error + (nat \<times> heap)" where
  "calloc_seg s nmemb sz =
     (let bytes = nmemb * sz
      in case malloc_seg s bytes of
           Inl e \<Rightarrow> Inl e
         | Inr r \<Rightarrow>
             (let newptr = fst r; s1 = snd r
              in if newptr \<noteq> NULL
                 then Inr (newptr, s1\<lparr>mem := memset (mem s1) newptr 0 bytes\<rparr>)
                 else Inr (newptr, s1)))"

section \<open>Reading and writing memory\<close>

lemma length_le_encode [simp]: "length (le_encode n v) = n"
  by (induction n arbitrary: v) auto

lemma le_decode_encode: "(le_decode (le_encode n v) :: 'a::len word) = take_bit (8 * n) v"
proof (induction n arbitrary: v)
  case 0 show ?case by simp
next
  case (Suc n)
  show ?case
    apply (simp add: Suc)
    apply (rule bit_word_eqI)
    apply (auto simp add: bit_simps)
    done
qed

lemma read_write_same: "read_bytes (write_bytes m a bs) a (length bs) = bs"
  by (auto simp: read_bytes_def write_bytes_def intro!: nth_equalityI)

lemma read_write_disj:
  "a + length bs \<le> b \<or> b + n \<le> a \<Longrightarrow> read_bytes (write_bytes m a bs) b n = read_bytes m b n"
  by (auto simp: read_bytes_def write_bytes_def)

lemma read_bytes_cong: "(\<And>x. a \<le> x \<Longrightarrow> x < a + n \<Longrightarrow> m' x = m x) \<Longrightarrow> read_bytes m' a n = read_bytes m a n"
  by (auto simp: read_bytes_def)

lemma load32_store32_same [simp]: "load32 (store32 m a v) a = v"
  using read_write_same [of m a "le_encode 4 v"]
  by (simp add: load32_def store32_def le_decode_encode take_bit_word_eq_self)

lemma load64_store64_same [simp]: "load64 (store64 m a v) a = v"
  using read_write_same [of m a "le_encode 8 v"]
  by (simp add: load64_def store64_def le_decode_encode take_bit_word_eq_self)

lemma load32_store32_disj: "a + 4 \<le> b \<or> b + 4 \<le> a \<Longrightarrow> load32 (store32 m a v) b = load32 m b"
  by (simp add: load32_def store32_def read_write_disj)

lemma load32_store64_disj: "a + 8 \<le> b \<or> b + 4 \<le> a \<Longrightarrow> load32 (store64 m a v) b = load32 m b"
  by (simp add: load32_def store64_def read_write_disj)

lemma load64_store64_disj: "a + 8 \<le> b \<or> b + 8 \<le> a \<Longrightarrow> load64 (store64 m a v) b = load64 m b"
  by (simp add: load64_def store64_def read_write_disj)

lemma load64_store32_disj: "a + 4 \<le> b \<or> b + 8 \<le> a \<Longrightarrow> load64 (store32 m a v) b = load64 m b"
  by (simp add: load64_def store32_def read_write_disj)

lemma load_ptr_store_ptr_same: "p < 2 ^ 64 \<Longrightarrow> load_ptr (store_ptr m a p) a = p"
  by (simp add: load_ptr_def store_ptr_def unat_of_nat)

lemma load_ptr_store_ptr_disj: "a + 8 \<le> b \<or> b + 8 \<le> a \<Longrightarrow> load_ptr (store_ptr m a p) b = load_ptr m b"
  by (simp add: load_ptr_def store_ptr_def load64_store64_disj)

lemma load32_store_ptr_disj: "a + 8 \<le> b \<or> b + 4 \<le> a \<Longrightarrow> load32 (store_ptr m a p) b = load32 m b"
  by (simp add: store_ptr_def load32_store64_disj)

lemma load_ptr_store32_disj: "a + 4 \<le> b \<or> b + 8 \<le> a \<Longrightarrow> load_ptr (store32 m a v) b = load_ptr m b"
  by (simp add: load_ptr_def load64_store32_disj)


lemma load32_zero [simp]: "load32 (\<lambda>_. 0) a = 0"
  by (simp add: load32_def read_bytes_def map_replicate_const eval_nat_numeral)

lemma write_read_back: "write_bytes m a (read_bytes m a n) = m"
  by (rule ext) (auto simp: write_bytes_def read_bytes_def)

lemma le_decode_bound: "take_bit (8 * length bs) (le_decode bs :: 'a::len word) = le_decode bs"
proof (induction bs)
  case Nil show ?case by simp
next
  case (Cons b bs)
  have *: "bit (le_decode bs :: 'a word) n \<Longrightarrow> n < 8 * length bs" for n
    using Cons [THEN arg_cong, of "\<lambda>w. bit w n"] by (simp add: bit_simps)
  show ?case
    apply (rule bit_word_eqI)
    apply (auto simp add: bit_simps dest: * bit_imp_le_length)
    done
qed

lemma le_encode_decode:
  "8 * length bs \<le> LENGTH('a) \<Longrightarrow> le_encode (length bs) (le_decode bs :: 'a::len word) = bs"
proof (induction bs)
  case Nil show ?case by simp
next
  case (Cons b bs)
  have *: "bit (le_decode bs :: 'a word) n \<Longrightarrow> n < 8 * length bs" for n
    using le_decode_bound [of bs, where 'a = 'a, THEN arg_cong, of "\<lambda>w. bit w n"] by (simp add: bit_simps)
  have 1: "ucast (ucast b OR push_bit 8 (le_decode bs :: 'a word)) = b"
    using Cons.prems by (intro bit_word_eqI) (auto simp: bit_simps)
  have 2: "drop_bit 8 (ucast b OR push_bit 8 (le_decode bs :: 'a word)) = le_decode bs"
    using Cons.prems
    by (intro bit_word_eqI) (auto simp: bit_simps dest: * bit_imp_le_length)
  have 3: "le_encode (length bs) (le_decode bs :: 'a word) = bs"
    using Cons by simp
  show ?case by (simp only: length_Cons le_encode.simps le_decode.simps 1 2 3)
qed

lemma store64_load64_back: "store64 m a (load64 m a) = m"
  using le_encode_decode [of "read_bytes m a 8", where 'a = 64]
  by (simp add: store64_def load64_def read_bytes_def write_read_back [unfolded read_bytes_def])

lemma store_ptr_load_ptr_back: "store_ptr m a (load_ptr m a) = m"
  by (simp add: store_ptr_def load_ptr_def store64_load64_back)

lemma store_ptr_byte:
  "store_ptr m a p x = (if a \<le> x \<and> x < a + 8 then le_encode 8 (of_nat p :: size_t) ! (x - a) else m x)"
  by (simp add: store_ptr_def store64_def write_bytes_def)

lemma store_ptr_back_byte:
  "load_ptr m a = p \<Longrightarrow> a \<le> x \<Longrightarrow> x < a + 8 \<Longrightarrow> le_encode 8 (of_nat p :: size_t) ! (x - a) = m x"
  using store_ptr_load_ptr_back [of m a, THEN fun_cong, of x] by (simp add: store_ptr_byte)

lemma store32_byte:
  "store32 m a v x =
     (if x = a then ucast v else if x = a + 1 then ucast (drop_bit 8 v)
      else if x = a + 2 then ucast (drop_bit 16 v) else if x = a + 3 then ucast (drop_bit 24 v)
      else m x)"
  by (auto simp: store32_def write_bytes_def eval_nat_numeral nth_Cons' drop_bit_drop_bit)

lemma store64_byte_outside: "x < a \<or> a + 8 \<le> x \<Longrightarrow> store64 m a v x = m x"
  by (auto simp: store64_def write_bytes_def)

lemma store_ptr_byte_outside: "x < a \<or> a + 8 \<le> x \<Longrightarrow> store_ptr m a p x = m x"
  by (simp add: store_ptr_def store64_byte_outside)

lemmas mem_eval = load32_store32_disj load_ptr_store_ptr_same load_ptr_store_ptr_disj
  load32_store_ptr_disj load_ptr_store32_disj

lemmas const_defs = wsize_def dsize_def tsize_def chunksize_def ptr_size_def size_class_cnt_def
  min_block_size_seg_def prologue_size_def epilogue_size_def block_size_def
  min_block_size_base_def alloc_mask_def size_mask_def mm_init_request_seg_def

lemmas base_eval = write_header_def write_footer_base_def get_size_def get_alloc_def
  header_to_payload_base_def payload_to_header_base_def get_payload_size_base_def
  pack_def extract_size_def extract_alloc_def mem_sbrk_def find_next_def find_prev_def
  find_prev_footer_def round_up_def max_sz_def coalesce_base_def extend_heap_base_def
  mm_init_base_def place_base_def find_fit_base_def malloc_base_def free_base_def
  realloc_base_def calloc_base_def find_fit_scan.simps

lemmas seg_eval = write_header_def write_footer_seg_def get_footer_def get_payload_size_seg_def
  get_size_def get_alloc_def header_to_payload_seg_def payload_to_header_seg_def
  pred_field_def succ_field_def pack_def extract_size_def extract_alloc_def mem_sbrk_def
  find_next_def find_prev_def find_prev_footer_def round_up_def max_sz_def get_asize_def
  seglist_at_def insert_free_block_def remove_from_free_list_def split_block_def
  coalesce_seg_def extend_heap_seg_def mm_init_seg_def place_seg_def find_fit_seg_def
  malloc_seg_def free_seg_def realloc_seg_def calloc_seg_def get_seglist_idx_def
  get_highest_1bit_idx_def find_fit_list.simps find_fit_classes.simps
  highest_1bit_loop.simps init_heads.simps

text \<open>
  A fresh backing region of \<open>cap\<close> bytes at address \<open>base\<close>, before any call of the
  allocator: the break is at the start and the allocator's globals are null.
\<close>

definition fresh_heap :: "nat \<Rightarrow> nat \<Rightarrow> heap" where
  "fresh_heap base cap =
     \<lparr>mem = (\<lambda>_. 0), mem_start_brk = base, mem_brk = base, mem_max_addr = base + cap,
      heap_listp = NULL, seglist = NULL\<rparr>"

section \<open>Size classes of the segregated list\<close>

lemma highest_1bit_loop_bitlen:
  "num \<noteq> 0 \<Longrightarrow> \<exists>k. 1 \<le> k \<and> k \<le> 32 \<and> 2 ^ (k - 1) \<le> unat num \<and> unat num < 2 ^ k
      \<and> highest_1bit_loop num idx = idx + of_nat k"
proof (induction num idx rule: highest_1bit_loop.induct)
  case (1 num idx)
  have half: "unat (drop_bit 1 num) = unat num div 2"
    by (simp add: drop_bit_eq_div unat_div)
  show ?case
  proof (cases "drop_bit 1 num > 0")
    case True
    then have nz: "drop_bit 1 num \<noteq> 0" by auto
    from "1.IH" [OF True nz] obtain k where k: "1 \<le> k" "k \<le> 32"
      "2 ^ (k - 1) \<le> unat (drop_bit 1 num)" "unat (drop_bit 1 num) < 2 ^ k"
      "highest_1bit_loop (drop_bit 1 num) (idx + 1) = idx + 1 + of_nat k"
      by blast
    have lo: "2 ^ k \<le> unat num"
    proof -
      have "2 * 2 ^ (k - 1) \<le> 2 * (unat num div 2)" using k(3) half by simp
      also have "\<dots> \<le> unat num" by simp
      finally show ?thesis using k(1) by (cases k) auto
    qed
    have hi: "unat num < 2 ^ (k + 1)" using k(4) half by simp
    have "unat num < 2 ^ 32" using unsigned_less [of num] by simp
    with lo have "(2::nat) ^ k < 2 ^ 32" by linarith
    then have "k < 32" using power_less_imp_less_exp [of 2 k 32] by simp
    moreover have "highest_1bit_loop num idx = idx + of_nat (k + 1)"
      using True k(5) by (subst highest_1bit_loop.simps) simp
    ultimately show ?thesis using lo hi
      by (intro exI [of _ "k + 1"]) simp
  next
    case False
    then have "drop_bit 1 num = 0" using word_neq_0_conv [of "drop_bit 1 num"] by blast
    then have "unat num div 2 = 0" using half by simp
    moreover have "unat num \<noteq> 0" using "1.prems" by (simp add: unat_eq_zero)
    ultimately have "unat num = 1" by linarith
    moreover have "highest_1bit_loop num idx = idx + 1"
      using False by (subst highest_1bit_loop.simps) simp
    ultimately show ?thesis by (intro exI [of _ 1]) simp
  qed
qed

lemma get_highest_1bit_idx_bitlen:
  assumes "num \<noteq> 0"
  shows "1 \<le> unat (get_highest_1bit_idx num) \<and> unat (get_highest_1bit_idx num) \<le> 32
     \<and> 2 ^ (unat (get_highest_1bit_idx num) - 1) \<le> unat num
     \<and> unat num < 2 ^ unat (get_highest_1bit_idx num)"
proof -
  from highest_1bit_loop_bitlen [OF assms, of 0] obtain k where k: "1 \<le> k" "k \<le> 32"
    "2 ^ (k - 1) \<le> unat num" "unat num < 2 ^ k" "highest_1bit_loop num 0 = of_nat k"
    by auto
  have "unat (of_nat k :: word_t) = k" using k(2) by (simp add: unat_of_nat)
  then show ?thesis using k by (simp add: get_highest_1bit_idx_def)
qed

lemma scast_shift: "k < 31 \<Longrightarrow> (scast (push_bit k (1::word_t)) :: size_t) = 2 ^ k"
  by (rule bit_word_eqI) (auto simp: bit_simps)

lemma scast_shift31: "(scast (push_bit 31 (1::word_t)) :: size_t) = 0xFFFFFFFF80000000"
  by simp

lemma unat_ucast_size: "unat s < 2 ^ 32 \<Longrightarrow> unat (ucast (s :: size_t) :: word_t) = unat s"
  by (simp add: unsigned_ucast_eq take_bit_nat_eq_self)

lemma get_seglist_idx_bitlen:
  assumes "0 < unat s" "unat s < 2 ^ 32"
  shows "\<exists>K. K \<le> 32 \<and> unat s \<le> 2 ^ K \<and> (1 \<le> K \<longrightarrow> 2 ^ (K - 1) < unat s \<or> K = 32 \<and> 2 ^ 31 \<le> unat s)
     \<and> get_seglist_idx s = (if K \<le> 5 then 0 else if 20 \<le> K then 15 else of_nat (K - 5))"
proof -
  define num :: word_t where "num = ucast s"
  define h where "h = get_highest_1bit_idx num"
  define k where "k = unat h"
  have un: "unat num = unat s" using assms(2) by (simp add: num_def unat_ucast_size)
  then have "num \<noteq> 0" using assms(1) by (auto simp: unat_eq_zero)
  from get_highest_1bit_idx_bitlen [OF this]
  have k: "1 \<le> k" "k \<le> 32" "2 ^ (k - 1) \<le> unat s" "unat s < 2 ^ k"
    using un by (simp_all add: k_def h_def)
  have h1: "unat (h - 1) = k - 1"
    using k(1) by (simp add: k_def unat_sub word_le_nat_alt)
  have hk: "h = of_nat k" by (simp add: k_def)
  have h1k: "h - 1 = of_nat (k - 1)" using h1 by (metis of_nat_unat ucast_id)
  have le_iff: "\<And>j c. j \<le> 32 \<Longrightarrow> c \<le> 32 \<Longrightarrow> ((of_nat j :: word_t) \<le> of_nat c) = (j \<le> c)"
    by (simp add: word_le_nat_alt unat_of_nat)
  define c where "c \<longleftrightarrow> s = scast (push_bit (unat (h - 1)) (1 :: word_t))"
  define K where "K = (if c then k - 1 else k)"
  have "(s = scast (push_bit (unat (h - 1)) (1 :: word_t))) \<longleftrightarrow> k \<le> 31 \<and> unat s = 2 ^ (k - 1)"
  proof (cases "k = 32")
    case True
    then have "scast (push_bit (unat (h - 1)) (1 :: word_t)) = (0xFFFFFFFF80000000 :: size_t)"
      using h1 scast_shift31 by simp
    moreover have "s \<noteq> 0xFFFFFFFF80000000" using assms(2) by auto
    ultimately show ?thesis using True by simp
  next
    case False
    then have lt: "k - 1 < 31" using k(1,2) by simp
    have "(2::nat) ^ (k - 1) < 2 ^ 64"
      using lt by (intro power_strict_increasing) simp_all
    then have "unat (of_nat (2 ^ (k - 1)) :: size_t) = 2 ^ (k - 1)"
      by (simp only: unat_of_nat) simp
    then have "unat (2 ^ (k - 1) :: size_t) = 2 ^ (k - 1)"
      by simp
    then have "(s = 2 ^ (k - 1)) = (unat s = 2 ^ (k - 1))"
      by (metis word_unat_eq_iff)
    moreover have "(scast (push_bit (unat (h - 1)) (1 :: word_t)) :: size_t) = 2 ^ (k - 1)"
      unfolding h1 by (rule scast_shift [OF lt])
    ultimately have "s = scast (push_bit (unat (h - 1)) (1 :: word_t)) \<longleftrightarrow> unat s = 2 ^ (k - 1)"
      by (simp only:)
    then show ?thesis using False k(2) by simp
  qed
  then have c_iff: "c \<longleftrightarrow> k \<le> 31 \<and> unat s = 2 ^ (k - 1)"
    by (simp only: c_def)
  have Kle: "K \<le> 32" using k(2) unfolding K_def by auto
  have upper: "unat s \<le> 2 ^ K"
    using k(4) c_iff by (auto simp: K_def)
  have lower: "1 \<le> K \<longrightarrow> 2 ^ (K - 1) < unat s \<or> K = 32 \<and> 2 ^ 31 \<le> unat s"
  proof (cases c)
    case True
    then have "unat s = 2 ^ (k - 1)" "K = k - 1" using c_iff by (simp_all add: K_def)
    then show ?thesis by (auto simp: power_strict_increasing_iff)
  next
    case False
    then have "K = k" by (simp add: K_def)
    moreover have "unat s \<noteq> 2 ^ (k - 1) \<or> k = 32" using False c_iff k(2) by auto
    ultimately show ?thesis using k(3) by auto
  qed
  have hK: "(if c then h - 1 else h) = of_nat K"
    using hk h1k by (cases c) (simp_all only: K_def if_True if_False)
  have "get_seglist_idx s = (if (of_nat K :: word_t) \<le> 5 then 0 else if 20 \<le> (of_nat K :: word_t) then 15 else of_nat K - 5)"
    unfolding get_seglist_idx_def Let_def num_def [symmetric] h_def [symmetric] c_def [symmetric] hK ..
  also have "\<dots> = (if K \<le> 5 then 0 else if 20 \<le> K then 15 else of_nat (K - 5))"
    using le_iff [of K 5] le_iff [of 20 K] Kle by (auto simp: of_nat_diff)
  finally show ?thesis using Kle upper lower by blast
qed

text \<open>
  Claim C5, amended. For every size \<open>s\<close> with \<open>0 < s < 2^32\<close> (a size that fits the 32-bit
  argument of \<open>get_highest_1bit_idx\<close>), the class index \<open>i\<close> of \<open>s\<close> is at most 15, it is 0
  exactly when \<open>s \<le> 32\<close> and 15 exactly when \<open>s > 2^19\<close>, and for \<open>1 \<le> j \<le> 14\<close> it is \<open>j\<close>
  exactly when \<open>s\<close> lies in the half-open interval \<open>(2^(j+4), 2^(j+5)]\<close>; so every exact power
  of two lands in the lower class.
\<close>

theorem get_seglist_idx_classes:
  assumes "0 < unat s" and "unat s < 2 ^ 32"
  shows "let i = unat (get_seglist_idx s)
         in i \<le> 15 \<and> (i = 0 \<longleftrightarrow> unat s \<le> 32) \<and> (i = 15 \<longleftrightarrow> 2 ^ 19 < unat s)
            \<and> (\<forall>j. 1 \<le> j \<and> j \<le> 14 \<longrightarrow> (i = j \<longleftrightarrow> 2 ^ (j + 4) < unat s \<and> unat s \<le> 2 ^ (j + 5)))"
proof -
  from get_seglist_idx_bitlen [OF assms] obtain K where K: "K \<le> 32" "unat s \<le> 2 ^ K"
    "1 \<le> K \<longrightarrow> 2 ^ (K - 1) < unat s \<or> K = 32 \<and> 2 ^ 31 \<le> unat s"
    "get_seglist_idx s = (if K \<le> 5 then 0 else if 20 \<le> K then 15 else of_nat (K - 5))"
    by blast
  have mono: "a \<le> b \<Longrightarrow> (2::nat) ^ a \<le> 2 ^ b" for a b
    by (rule power_increasing) simp_all
  have inj: "(2::nat) ^ a < 2 ^ b \<Longrightarrow> a < b" for a b
    by (rule power_less_imp_less_exp [of 2]) simp_all
  have p5: "(2::nat) ^ 5 = 32" by simp
  consider (low) "K \<le> 5" | (mid) "6 \<le> K" "K \<le> 19" | (high) "20 \<le> K" by linarith
  then show ?thesis
  proof cases
    case low
    then have i: "unat (get_seglist_idx s) = 0" using K(4) by simp
    have s32: "unat s \<le> 32" using mono [OF low] K(2) p5 by linarith
    have "\<not> 2 ^ 19 < unat s" using s32 by simp
    moreover have "\<not> (2 ^ (j + 4) < unat s)" if "1 \<le> j" for j
    proof -
      have "(2::nat) ^ 5 \<le> 2 ^ (j + 4)" using that by (intro mono) simp
      then show ?thesis using s32 by simp
    qed
    ultimately show ?thesis using i s32 by (auto simp: Let_def)
  next
    case mid
    then have "unat (of_nat (K - 5) :: word_t) = K - 5" by (subst unat_of_nat) simp
    then have i: "unat (get_seglist_idx s) = K - 5" using K(4) mid by simp
    have lo: "2 ^ (K - 1) < unat s" using K(3) mid by auto
    have "(2::nat) ^ 5 \<le> 2 ^ (K - 1)" using mid by (intro mono) simp
    then have not0: "\<not> unat s \<le> 32" using lo by simp
    have "(2::nat) ^ K \<le> 2 ^ 19" using mid by (intro mono) simp
    then have not15: "\<not> 2 ^ 19 < unat s" using K(2) by simp
    have "(K - 5 = j) = (2 ^ (j + 4) < unat s \<and> unat s \<le> 2 ^ (j + 5))" if "1 \<le> j" "j \<le> 14" for j
    proof
      assume "K - 5 = j"
      then have "j + 4 = K - 1" "j + 5 = K" using mid by simp_all
      then show "2 ^ (j + 4) < unat s \<and> unat s \<le> 2 ^ (j + 5)" using lo K(2) by simp
    next
      assume a: "2 ^ (j + 4) < unat s \<and> unat s \<le> 2 ^ (j + 5)"
      then have "(2::nat) ^ (j + 4) < 2 ^ K" using K(2) by linarith
      then have "j + 4 < K" by (rule inj)
      moreover have "(2::nat) ^ (K - 1) < 2 ^ (j + 5)" using a lo by linarith
      then have "K - 1 < j + 5" by (rule inj)
      ultimately show "K - 5 = j" by linarith
    qed
    then show ?thesis using i mid not0 not15 by (auto simp: Let_def)
  next
    case high
    then have i: "unat (get_seglist_idx s) = 15" using K(4) by simp
    have "(2::nat) ^ 19 \<le> 2 ^ (K - 1)" using high by (intro mono) simp
    moreover have "(2::nat) ^ 19 < 2 ^ 31" by simp
    ultimately have s19: "2 ^ 19 < unat s" using K(3) high by auto
    then have "\<not> unat s \<le> 32" by simp
    moreover have "\<not> unat s \<le> 2 ^ (j + 5)" if "j \<le> 14" for j
    proof -
      have "(2::nat) ^ (j + 5) \<le> 2 ^ 19" using that by (intro mono) simp
      then show ?thesis using s19 by simp
    qed
    ultimately show ?thesis using i s19 by (auto simp: Let_def)
  qed
qed

theorem get_seglist_idx_classes_witness:
  "let i = unat (get_seglist_idx 4096)
   in i \<le> 15 \<and> (i = 0 \<longleftrightarrow> unat (4096 :: size_t) \<le> 32) \<and> (i = 15 \<longleftrightarrow> 2 ^ 19 < unat (4096 :: size_t))
      \<and> (\<forall>j. 1 \<le> j \<and> j \<le> 14 \<longrightarrow> (i = j \<longleftrightarrow> 2 ^ (j + 4) < unat (4096 :: size_t) \<and> unat (4096 :: size_t) \<le> 2 ^ (j + 5)))"
proof -
  have h1: "0 < unat (4096 :: size_t)" by simp
  have h2: "unat (4096 :: size_t) < 2 ^ 32" by simp
  show ?thesis by (rule get_seglist_idx_classes [OF h1 h2])
qed

text \<open>
  Claim C5 as stated (every size \<open>s > 0\<close>) fails: the size \<open>2^32\<close> is greater than \<open>2^19\<close>, but
  its truncation to 32 bits is 0 and it is sent to class 0, not 15.
\<close>

theorem get_seglist_idx_truncates:
  "2 ^ 19 < unat (4294967296 :: size_t) \<and> get_seglist_idx 4294967296 = 0"
  by (simp add: get_seglist_idx_def get_highest_1bit_idx_def highest_1bit_loop.simps)


section \<open>Bootstrap of the segregated heap\<close>

text \<open>The list operations and \<open>coalesce\<close> write to memory only: the break stays.\<close>

lemma mem_brk_insert_free_block [simp]: "mem_brk (insert_free_block s b) = mem_brk s"
  by (simp add: insert_free_block_def Let_def)

lemma mem_brk_remove_from_free_list [simp]: "mem_brk (remove_from_free_list s b) = mem_brk s"
  by (simp add: remove_from_free_list_def Let_def)

lemma mem_brk_coalesce_seg [simp]: "mem_brk (snd (coalesce_seg s b)) = mem_brk s"
  by (simp add: coalesce_seg_def Let_def)

lemma globals_insert_free_block [simp]:
  "seglist (insert_free_block s b) = seglist s"
  "heap_listp (insert_free_block s b) = heap_listp s"
  by (simp_all add: insert_free_block_def Let_def)

lemma globals_remove_from_free_list [simp]:
  "seglist (remove_from_free_list s b) = seglist s"
  "heap_listp (remove_from_free_list s b) = heap_listp s"
  by (simp_all add: remove_from_free_list_def Let_def)

lemma globals_coalesce_seg [simp]:
  "seglist (snd (coalesce_seg s b)) = seglist s"
  "heap_listp (snd (coalesce_seg s b)) = heap_listp s"
  by (simp_all add: coalesce_seg_def Let_def)

text \<open>
  Claim C6, amended. The bootstrap \<open>mm_init\<close> of the segregated variant requests
  \<open>16 * sizeof(block) + min_block_size + 8\<close> bytes, that is 552, for the heads, the prologue
  and the epilogue (\<open>epilogue_size = dsize\<close>): with fewer than 552 bytes left in the backing
  region it fails and leaves the state as it was; with 552 bytes or more the heads start
  at the old break, the prologue is 512 bytes above it, and the break has moved by exactly
  552 when the following extension by \<open>chunksize\<close> (4096 bytes) does not fit (then
  \<open>mm_init\<close> returns -1), and by 552 + 4096 when it does.
\<close>

theorem mm_init_seg_request:
  "(mem_max_addr s < mem_brk s + 552 \<longrightarrow> mm_init_seg s = (-1, s))
   \<and> (mem_brk s + 552 \<le> mem_max_addr s \<longrightarrow>
        seglist (snd (mm_init_seg s)) = mem_brk s
        \<and> heap_listp (snd (mm_init_seg s)) = mem_brk s + 512
        \<and> (mem_max_addr s < mem_brk s + 552 + 4096 \<longrightarrow>
             fst (mm_init_seg s) = -1 \<and> mem_brk (snd (mm_init_seg s)) = mem_brk s + 552)
        \<and> (mem_brk s + 552 + 4096 \<le> mem_max_addr s \<longrightarrow>
             mem_brk (snd (mm_init_seg s)) = mem_brk s + 552 + 4096))"
  by (simp add: mm_init_seg_def mem_sbrk_def const_defs extend_heap_seg_def round_up_def Let_def)

theorem mm_init_seg_request_witness:
  "mm_init_seg (fresh_heap 65536 551) = (-1, fresh_heap 65536 551)
   \<and> fst (mm_init_seg (fresh_heap 65536 552)) = -1
   \<and> mem_brk (snd (mm_init_seg (fresh_heap 65536 552))) = 66088
   \<and> seglist (snd (mm_init_seg (fresh_heap 65536 552))) = 65536
   \<and> heap_listp (snd (mm_init_seg (fresh_heap 65536 552))) = 66048
   \<and> mem_brk (snd (mm_init_seg (fresh_heap 65536 1048576))) = 70184"
  using mm_init_seg_request [of "fresh_heap 65536 551"]
        mm_init_seg_request [of "fresh_heap 65536 552"]
        mm_init_seg_request [of "fresh_heap 65536 1048576"]
  by (simp add: fresh_heap_def)

text \<open>
  Claim C6 as stated fails. On a region with exactly
  \<open>16 * sizeof(block) + min_block_size + 4\<close> = 548 bytes a request of 548 bytes is granted,
  but \<open>mm_init\<close> fails at its first request and leaves the region untouched; on a region
  with 552 bytes its first request is granted and moves the break by 552.
\<close>

theorem mm_init_seg_request_not_548:
  "unat (16 * block_size + min_block_size_seg + 4) = 548
   \<and> mem_sbrk (fresh_heap 65536 548) (16 * block_size + min_block_size_seg + 4) \<noteq> None
   \<and> mm_init_seg (fresh_heap 65536 548) = (-1, fresh_heap 65536 548)
   \<and> mem_brk (snd (mm_init_seg (fresh_heap 65536 552))) = 65536 + 552"
  by (simp add: const_defs mm_init_seg_def mem_sbrk_def fresh_heap_def extend_heap_seg_def
      round_up_def Let_def)

section \<open>Zero-initialised allocation\<close>

text \<open>
  The implicit-list \<open>calloc\<close> detects every overflow of \<open>nmemb * size\<close> (for \<open>nmemb \<noteq> 0\<close>)
  and returns null without touching the heap.
\<close>

lemma calloc_base_overflow:
  assumes "nmemb \<noteq> 0" and "2 ^ 64 \<le> unat nmemb * unat sz"
  shows "calloc_base s nmemb sz = Inr (NULL, s)"
proof -
  have "(nmemb * sz) div nmemb \<noteq> sz"
  proof
    assume eq: "(nmemb * sz) div nmemb = sz"
    have "unat (nmemb * sz) div unat nmemb = unat sz"
      using arg_cong [OF eq, of unat] by (simp add: unat_div)
    then have "unat sz * unat nmemb \<le> unat (nmemb * sz)"
      using div_times_less_eq_dividend [of "unat (nmemb * sz)" "unat nmemb"] by simp
    moreover have "unat (nmemb * sz) < 2 ^ 64" using unsigned_less [of "nmemb * sz"] by simp
    ultimately show False using assms(2) by (simp add: mult.commute)
  qed
  then show ?thesis by (simp add: calloc_base_def Let_def)
qed


text \<open>
  Claim C1 fails on the segregated variant, which multiplies without a check. At
  \<open>nmemb = 2^63 + 1\<close>, \<open>size = 2\<close> the product overflows \<open>size_t\<close> and wraps to 2; on a fresh
  region of 1 MiB at address 65536 \<open>calloc\<close> then returns the non-null payload pointer
  66088 of a 32-byte block.
\<close>

theorem calloc_seg_overflow_not_null:
  "2 ^ 64 \<le> unat (0x8000000000000001 :: size_t) * unat (2 :: size_t)
   \<and> (case calloc_seg (fresh_heap 65536 1048576) 0x8000000000000001 2 of
         Inl e \<Rightarrow> False | Inr r \<Rightarrow> fst r = 66088)"
  by (simp add: seg_eval const_defs mem_eval fresh_heap_def Let_def cong: let_weak_cong)


section \<open>Allocation on an uninitialised heap\<close>

text \<open>
  Claim C8 fails in both variants: \<open>malloc\<close> ignores the result of \<open>mm_init\<close>. On a fresh
  region too small for the first request of \<open>mm_init\<close> (8 bytes here), initialisation fails
  with -1 and leaves \<open>heap_listp\<close> and \<open>seglist\<close> null; \<open>malloc(1)\<close> goes on to \<open>find_fit\<close>,
  which reads through the null pointer instead of returning null.
\<close>

theorem malloc_init_failure:
  "fst (mm_init_base (fresh_heap 65536 8)) = -1
   \<and> malloc_base (fresh_heap 65536 8) 1 = Inl NullDeref
   \<and> fst (mm_init_seg (fresh_heap 65536 8)) = -1
   \<and> malloc_seg (fresh_heap 65536 8) 1 = Inl NullDeref"
  by (simp add: seg_eval base_eval const_defs mem_eval fresh_heap_def Let_def cong: let_weak_cong)


section \<open>Adjacent free blocks\<close>

text \<open>
  Claim C2 fails on the in-place shrink path of the segregated \<open>realloc\<close>. On a fresh
  region, \<open>p = malloc(1000)\<close> followed by \<open>realloc(p, 32)\<close> returns \<open>p\<close>; afterwards the block
  that follows the reallocated one (the split-off remainder) is free, and so is the block
  that follows the remainder: two adjacent free blocks.
\<close>

theorem realloc_seg_shrink_adjacent_free:
  "case malloc_seg (fresh_heap 65536 1048576) 1000 of
     Inl e \<Rightarrow> False
   | Inr r \<Rightarrow>
       (case realloc_seg (snd r) (fst r) 32 of
          Inl e \<Rightarrow> False
        | Inr r2 \<Rightarrow>
            fst r \<noteq> NULL \<and> fst r2 = fst r
            \<and> (let m = mem (snd r2); b = find_next m (payload_to_header_seg (fst r2))
                in get_size m b \<noteq> 0 \<and> \<not> get_alloc m b
                   \<and> get_size m (find_next m b) \<noteq> 0 \<and> \<not> get_alloc m (find_next m b)))"
  by (simp add: seg_eval const_defs mem_eval fresh_heap_def Let_def cong: let_weak_cong)


text \<open>
  Claim C3 as stated (every heap state in which the input block is marked free) fails:
  in the state that the scenario above reaches, mark the reallocated block free in header
  and footer, as \<open>free\<close> does, and coalesce it. Its previous neighbour is allocated and its
  next neighbour is free, so the result is the input block with the sum of both sizes;
  but the block after the result is free.
\<close>

theorem coalesce_seg_next_free:
  "case malloc_seg (fresh_heap 65536 1048576) 1000 of
     Inl e \<Rightarrow> False
   | Inr r \<Rightarrow>
       (case realloc_seg (snd r) (fst r) 32 of
          Inl e \<Rightarrow> False
        | Inr r2 \<Rightarrow>
            (let s = snd r2; block = payload_to_header_seg (fst r2);
                 sz = get_size (mem s) block;
                 m1 = write_header (mem s) block sz False;
                 m2 = write_footer_seg m1 block sz False;
                 c = coalesce_seg (s\<lparr>mem := m2\<rparr>) block;
                 m3 = mem (snd c)
             in \<not> get_alloc m2 block \<and> load32 m2 (get_footer m2 block) = load32 m2 block
                \<and> get_alloc m2 (find_prev m2 block) \<and> \<not> get_alloc m2 (find_next m2 block)
                \<and> fst c = block
                \<and> get_size m3 block = sz + get_size m2 (find_next m2 block)
                \<and> \<not> get_alloc m3 (find_next m3 (fst c))))"
  by (simp add: seg_eval const_defs mem_eval fresh_heap_def Let_def cong: let_weak_cong)


section \<open>Alignment of payload pointers\<close>

text \<open>
  Claim C4 as stated fails in both variants. With the region at the 16-byte aligned
  address 65536, the first payload pointer of the segregated variant is 8 modulo 16; in
  the implicit-list variant \<open>malloc(9)\<close> takes a block of 24 bytes, so that the payload
  pointer of the next allocation is 8 modulo 16.
\<close>

theorem malloc_payload_not_16_aligned:
  "(65536 :: nat) mod 16 = 0
   \<and> (case malloc_seg (fresh_heap 65536 1048576) 1 of
         Inl e \<Rightarrow> False | Inr r \<Rightarrow> fst r \<noteq> NULL \<and> fst r mod 16 = 8)
   \<and> (case malloc_base (fresh_heap 65536 1048576) 9 of
         Inl e \<Rightarrow> False
       | Inr r \<Rightarrow>
           fst r \<noteq> NULL \<and>
           (case malloc_base (snd r) 1 of
              Inl e \<Rightarrow> False | Inr r2 \<Rightarrow> fst r2 \<noteq> NULL \<and> fst r2 mod 16 = 8))"
  by (simp add: seg_eval base_eval const_defs mem_eval fresh_heap_def Let_def cong: let_weak_cong)


section \<open>Reallocation\<close>

text \<open>
  Claim C7 as stated (every \<open>n > 0\<close>) fails. In the segregated variant, after
  \<open>p = malloc(100)\<close> the call \<open>realloc(p, 2^64 - 1)\<close> succeeds and returns \<open>p\<close>, because the
  adjusted size wraps around to 32; the block is split at 32 bytes and the footer written
  there changes the payload byte at offset 20, which is among the first
  \<open>min(100, 2^64 - 1)\<close> bytes.
\<close>

theorem realloc_seg_huge_clobbers:
  "case malloc_seg (fresh_heap 65536 1048576) 100 of
     Inl e \<Rightarrow> False
   | Inr r \<Rightarrow>
       (case realloc_seg (snd r) (fst r) 0xFFFFFFFFFFFFFFFF of
          Inl e \<Rightarrow> False
        | Inr r2 \<Rightarrow>
            fst r \<noteq> NULL \<and> fst r2 = fst r
            \<and> get_payload_size_seg (mem (snd r)) (payload_to_header_seg (fst r)) = 100
            \<and> mem (snd r2) (fst r2 + 20) \<noteq> mem (snd r) (fst r + 20))"
  by (simp add: seg_eval const_defs mem_eval store32_byte store_ptr_byte_outside fresh_heap_def Let_def
      cong: let_weak_cong)

section \<open>Inserting and removing a free block\<close>

text \<open>
  Claim C9. Let \<open>h\<close> be the head of the size class of block \<open>b\<close> and \<open>f\<close> the first node of
  that list (\<open>h\<close> itself when the list is empty), in a state where the list is well formed
  at its head (\<open>h.succ.pred = h\<close>) and \<open>b\<close> is not on the list: the link fields of \<open>b\<close>
  overlap neither those of \<open>h\<close> nor those of \<open>f\<close>, and \<open>h\<close> and \<open>f\<close> are the same node or do not
  overlap. Then \<open>insert_free_block(b)\<close> followed by \<open>remove_from_free_list(b)\<close> leaves every
  byte of memory outside the link fields of \<open>b\<close> as it was, and changes nothing else of the
  state: every \<open>pred\<close> and \<open>succ\<close> link of every head and every other node is restored.
\<close>

theorem insert_then_remove_restores:
  fixes s :: heap and b :: nat
  defines "h \<equiv> seglist_at s (get_seglist_idx (get_size (mem s) b))"
  defines "f \<equiv> load_ptr (mem s) (succ_field h)"
  assumes wf: "load_ptr (mem s) (pred_field f) = h"
    and rep: "h < 2 ^ 64" "b < 2 ^ 64"
    and sep_bh: "b + 16 \<le> h \<or> h + 16 \<le> b"
    and sep_bf: "b + 16 \<le> f \<or> f + 16 \<le> b"
    and sep_hf: "f = h \<or> f + 16 \<le> h \<or> h + 16 \<le> f"
  shows "let s' = remove_from_free_list (insert_free_block s b) b
         in (\<forall>x. x < pred_field b \<or> succ_field b + 8 \<le> x \<longrightarrow> mem s' x = mem s x)
            \<and> s'\<lparr>mem := mem s\<rparr> = s"
proof -
  define m where "m = mem s"
  define m1 where "m1 = store_ptr m (b + 8) h"
  define m2 where "m2 = store_ptr m1 (b + 16) f"
  define m3 where "m3 = store_ptr m2 (h + 16) b"
  define m4 where "m4 = store_ptr m3 (f + 8) b"
  define m5 where "m5 = store_ptr m4 (h + 16) f"
  define m6 where "m6 = store_ptr m5 (f + 8) h"
  have frep: "f < 2 ^ 64" using unsigned_less [of "load64 (mem s) (succ_field h)"]
    by (simp add: f_def load_ptr_def)
  note dj = load_ptr_store_ptr_disj
  have d_b8_h16: "b + 8 + 8 \<le> h + 16 \<or> h + 16 + 8 \<le> b + 8" using sep_bh by arith
  have d_b16_h16: "b + 16 + 8 \<le> h + 16 \<or> h + 16 + 8 \<le> b + 16" using sep_bh by arith
  have d_b8_f8: "f + 8 + 8 \<le> b + 8 \<or> b + 8 + 8 \<le> f + 8" using sep_bf by arith
  have d_b16_f8: "f + 8 + 8 \<le> b + 16 \<or> b + 16 + 8 \<le> f + 8" using sep_bf by arith
  have d_h16_b8: "h + 16 + 8 \<le> b + 8 \<or> b + 8 + 8 \<le> h + 16" using sep_bh by arith
  have d_h16_b16: "h + 16 + 8 \<le> b + 16 \<or> b + 16 + 8 \<le> h + 16" using sep_bh by arith
  have l1: "load_ptr m1 (h + 16) = f"
    by (simp add: m1_def dj [OF d_b8_h16] f_def succ_field_def m_def)
  have l2: "load_ptr m2 (b + 8) = h"
    using rep by (simp add: m2_def m1_def dj load_ptr_store_ptr_same)
  have l3: "load_ptr m3 (b + 16) = f"
    using frep by (simp add: m3_def m2_def dj [OF d_h16_b16] load_ptr_store_ptr_same)
  have hm: "seglist_at s (get_seglist_idx (get_size m b)) = h" by (simp add: h_def m_def)
  have ins: "insert_free_block s b = s\<lparr>mem := m4\<rparr>"
    unfolding insert_free_block_def Let_def pred_field_def succ_field_def
    by (simp add: m_def [symmetric] hm m1_def [symmetric] l1 m2_def [symmetric] l2
        m3_def [symmetric] l3 m4_def [symmetric])
  have l4p: "load_ptr m4 (b + 8) = h"
    using l2 by (simp add: m4_def m3_def dj [OF d_b8_f8] dj [OF d_h16_b8])
  have l4s: "load_ptr m4 (b + 16) = f"
    using l3 by (simp add: m4_def dj [OF d_b16_f8])
  have l5s: "load_ptr m5 (b + 16) = f"
    using l4s by (simp add: m5_def dj [OF d_h16_b16])
  have l5p: "load_ptr m5 (b + 8) = h"
    using l4p by (simp add: m5_def dj [OF d_h16_b8])
  have rem: "remove_from_free_list (s\<lparr>mem := m4\<rparr>) b = s\<lparr>mem := m6\<rparr>"
    unfolding remove_from_free_list_def Let_def pred_field_def succ_field_def
    by (simp add: l4p l4s m5_def [symmetric] l5s l5p m6_def [symmetric])
  have backf: "load_ptr m (h + 16) = f" by (simp add: f_def m_def succ_field_def)
  have backh: "load_ptr m (f + 8) = h" using wf by (simp add: m_def pred_field_def)
  have "m6 x = m x" if "x < b + 8 \<or> b + 24 \<le> x" for x
    using that store_ptr_back_byte [OF backf, of x] store_ptr_back_byte [OF backh, of x] sep_hf
    by (auto simp: m6_def m5_def m4_def m3_def m2_def m1_def store_ptr_byte)
  then show ?thesis
    unfolding ins rem by (simp add: m_def pred_field_def succ_field_def)
qed

text \<open>
  Two states to try the theorem on. In \<open>list_state\<close>, a fresh region after
  \<open>p = malloc(1000); malloc(1000); free(p)\<close>, the list of class 5 holds the free block at
  66080 (1016 bytes), and the allocated block at 67096 has 1016 bytes too and is on no
  list: inserting it rewrites the \<open>succ\<close> link of the head 65696 and the \<open>pred\<close> link of the
  node 66080, and removing it restores both. In \<open>demo_state\<close>, a fresh region after
  \<open>malloc(1000)\<close>, the allocated block at 66080 has 1016 bytes and the list of class 5 is
  empty.
\<close>

definition demo_state :: heap where
  "demo_state = snd (projr (malloc_seg (fresh_heap 65536 1048576) 1000))"

definition list_state :: heap where
  "list_state =
     free_seg (snd (projr (malloc_seg (snd (projr (malloc_seg (fresh_heap 65536 1048576) 1000)))
                             1000)))
       66088"

lemma demo_state_facts:
  "seglist demo_state = 65536"
  "get_size (mem demo_state) 66080 = 1016"
  "load_ptr (mem demo_state) 65712 = 65696"
  "load_ptr (mem demo_state) 65704 = 65696"
  by (simp_all add: demo_state_def seg_eval const_defs mem_eval fresh_heap_def Let_def
      cong: let_weak_cong)

lemma demo_state_class: "seglist_at demo_state (get_seglist_idx 1016) = 65696"
  by (simp add: seglist_at_def demo_state_facts get_seglist_idx_def get_highest_1bit_idx_def
      highest_1bit_loop.simps const_defs)

lemma list_state_facts:
  "seglist list_state = 65536"
  "get_size (mem list_state) 67096 = 1016"
  "get_alloc (mem list_state) 67096"
  "get_size (mem list_state) 66080 = 1016"
  "\<not> get_alloc (mem list_state) 66080"
  "load_ptr (mem list_state) 65712 = 66080"
  "load_ptr (mem list_state) 65704 = 66080"
  "load_ptr (mem list_state) 66088 = 65696"
  "load_ptr (mem list_state) 66096 = 65696"
  by (simp_all add: list_state_def seg_eval const_defs mem_eval fresh_heap_def Let_def
      cong: let_weak_cong)

lemma list_state_class: "seglist_at list_state (get_seglist_idx 1016) = 65696"
  by (simp add: seglist_at_def list_state_facts get_seglist_idx_def get_highest_1bit_idx_def
      highest_1bit_loop.simps const_defs)

lemma list_state_insert:
  "load_ptr (mem (insert_free_block list_state 67096)) 65712 = 67096"
  "load_ptr (mem (insert_free_block list_state 67096)) 66088 = 67096"
  by (simp_all add: insert_free_block_def list_state_facts list_state_class pred_field_def
      succ_field_def mem_eval Let_def cong: let_weak_cong)

theorem insert_then_remove_restores_witness:
  "load_ptr (mem list_state) (succ_field 65696) = 66080
   \<and> load_ptr (mem list_state) (pred_field 66080) = 65696
   \<and> load_ptr (mem (insert_free_block list_state 67096)) (succ_field 65696) = 67096
   \<and> load_ptr (mem (insert_free_block list_state 67096)) (pred_field 66080) = 67096
   \<and> (let s' = remove_from_free_list (insert_free_block list_state 67096) 67096
       in (\<forall>x. x < pred_field 67096 \<or> succ_field 67096 + 8 \<le> x \<longrightarrow>
                 mem s' x = mem list_state x)
          \<and> s'\<lparr>mem := mem list_state\<rparr> = list_state)
   \<and> (let s' = remove_from_free_list (insert_free_block demo_state 66080) 66080
       in (\<forall>x. x < pred_field 66080 \<or> succ_field 66080 + 8 \<le> x \<longrightarrow>
                 mem s' x = mem demo_state x)
          \<and> s'\<lparr>mem := mem demo_state\<rparr> = demo_state)"
  using insert_then_remove_restores [of list_state 67096]
        insert_then_remove_restores [of demo_state 66080]
  by (simp add: list_state_facts list_state_class list_state_insert demo_state_facts
      demo_state_class pred_field_def succ_field_def)

end
